theory Spec2Isabelle
  imports Complex_Main "HOL-Library.Sublist"
begin

section \<open>The PDF report builder of \<^verbatim>\<open>src/app.py\<close>\<close>

text \<open>
  The development embeds \<^verbatim>\<open>pdf_watermark\<close>, \<^verbatim>\<open>pdf_footer\<close> and
  \<^verbatim>\<open>build_pdf_report\<close> (lines 68 to 146 of \<^verbatim>\<open>src/app.py\<close>).

  \<^item> A Python \<^verbatim>\<open>str\<close> is a sequence of code points, and \<^verbatim>\<open>len\<close> counts code
    points. The bullet glyph U+2022 is one of them, so strings are lists of code point
    numbers, not byte strings.
  \<^item> The ReportLab canvas is an object the code mutates through method calls. It is
    modelled by what it records: the operators of the page being drawn (\<open>code\<close>) and
    the pages already emitted by \<^verbatim>\<open>showPage\<close> (\<open>pages\<close>). Every method call the source
    makes is one operator, with the arguments the source passes.
  \<^item> \<^verbatim>\<open>datetime.now()\<close> reads the wall clock. The clock is an input \<open>now\<close>, giving
    the formatted reading of the \<open>n\<close>-th call; the count of calls made so far is part of
    the state (\<open>reads\<close>).
  \<^item> Python floats are modelled as real numbers: arithmetic is exact, rounding is not
    modelled.
\<close>

subsection \<open>Strings\<close>

type_synonym pystr = "nat list"

definition py :: "string \<Rightarrow> pystr" where
  "py s = map of_char s"

text \<open>\<^verbatim>\<open>text[i:j]\<close> for \<open>0 \<le> i \<le> j\<close>: slicing clips at the end of the string.\<close>

definition slice :: "'a list \<Rightarrow> nat \<Rightarrow> nat \<Rightarrow> 'a list" where
  "slice xs i j = take (j - i) (drop i xs)"

text \<open>\<^verbatim>\<open>range(0, stop, step)\<close> for a positive step: \<open>0, step, 2 * step, ...\<close> below \<open>stop\<close>.\<close>

definition range_step :: "nat \<Rightarrow> nat \<Rightarrow> nat list" where
  "range_step stop step = map (\<lambda>k. k * step) [0 ..< (stop + step - 1) div step]"

subsection \<open>ReportLab constants and canvas\<close>

text \<open>
  \<^verbatim>\<open>reportlab.lib.units.inch\<close> and \<^verbatim>\<open>reportlab.lib.pagesizes.letter\<close> are constants of
  the library, in points: 72 points to the inch, a page of 8.5 by 11 inches.
\<close>

definition inch :: real where
  "inch = 72"

definition letter :: "real \<times> real" where
  "letter = (8.5 * inch, 11 * inch)"

datatype color = Color real real real real

datatype op =
    SaveState
  | RestoreState
  | SetFillColor color
  | SetFont string nat
  | Translate real real
  | Rotate real
  | DrawString real real pystr
  | DrawCentredString real real pystr
  | DrawRightString real real pystr

record canvas =
  pages :: "op list list"
  code :: "op list"
  reads :: nat

definition Canvas :: canvas where
  "Canvas = \<lparr>pages = [], code = [], reads = 0\<rparr>"

definition emit :: "op \<Rightarrow> canvas \<Rightarrow> canvas" where
  "emit x c = c\<lparr>code := code c @ [x]\<rparr>"

definition saveState :: "canvas \<Rightarrow> canvas" where
  "saveState = emit SaveState"

definition restoreState :: "canvas \<Rightarrow> canvas" where
  "restoreState = emit RestoreState"

definition setFillColor :: "color \<Rightarrow> canvas \<Rightarrow> canvas" where
  "setFillColor col = emit (SetFillColor col)"

definition setFont :: "string \<Rightarrow> nat \<Rightarrow> canvas \<Rightarrow> canvas" where
  "setFont name sz = emit (SetFont name sz)"

definition translate :: "real \<Rightarrow> real \<Rightarrow> canvas \<Rightarrow> canvas" where
  "translate dx dy = emit (Translate dx dy)"

definition rotate :: "real \<Rightarrow> canvas \<Rightarrow> canvas" where
  "rotate theta = emit (Rotate theta)"

definition drawString :: "real \<Rightarrow> real \<Rightarrow> pystr \<Rightarrow> canvas \<Rightarrow> canvas" where
  "drawString x y text = emit (DrawString x y text)"

definition drawCentredString :: "real \<Rightarrow> real \<Rightarrow> pystr \<Rightarrow> canvas \<Rightarrow> canvas" where
  "drawCentredString x y text = emit (DrawCentredString x y text)"

definition drawRightString :: "real \<Rightarrow> real \<Rightarrow> pystr \<Rightarrow> canvas \<Rightarrow> canvas" where
  "drawRightString x y text = emit (DrawRightString x y text)"

text \<open>\<^verbatim>\<open>showPage\<close> closes the page being drawn and starts an empty one.\<close>

definition showPage :: "canvas \<Rightarrow> canvas" where
  "showPage c = c\<lparr>pages := pages c @ [code c], code := []\<rparr>"

text \<open>\<^verbatim>\<open>save\<close> closes the last page when something was drawn on it.\<close>

definition save :: "canvas \<Rightarrow> canvas" where
  "save c = (if code c \<noteq> [] then showPage c else c)"

text \<open>
  \<^verbatim>\<open>buf.getvalue()\<close>: the finished document. The serialisation of the pages to PDF
  bytes is ReportLab's; the document is represented by its pages of operators.
\<close>

definition getvalue :: "canvas \<Rightarrow> op list list" where
  "getvalue c = pages c"

text \<open>A block of statements on the canvas, run in order.\<close>

definition run :: "canvas \<Rightarrow> (canvas \<Rightarrow> canvas) list \<Rightarrow> canvas" where
  "run c stmts = foldl (\<lambda>c stmt. stmt c) c stmts"

subsection \<open>\<^verbatim>\<open>pdf_watermark\<close> and \<^verbatim>\<open>pdf_footer\<close>\<close>

definition pdf_watermark :: "canvas \<Rightarrow> pystr \<Rightarrow> real \<Rightarrow> real \<Rightarrow> canvas" where
  "pdf_watermark c text page_w page_h = run c
     [saveState,
      setFillColor (Color 0.65 0.75 0.95 0.12),
      setFont ''Helvetica-Bold'' 36,
      translate (page_w / 2) (page_h / 2),
      rotate 30,
      drawCentredString 0 0 text,
      restoreState]"

text \<open>The clock reading of \<^verbatim>\<open>datetime.now().strftime(...)\<close>, and the count of readings.\<close>

definition strftime_now :: "(nat \<Rightarrow> pystr) \<Rightarrow> canvas \<Rightarrow> pystr" where
  "strftime_now now c = now (reads c)"

definition tick :: "canvas \<Rightarrow> canvas" where
  "tick c = c\<lparr>reads := Suc (reads c)\<rparr>"

definition pdf_footer :: "(nat \<Rightarrow> pystr) \<Rightarrow> canvas \<Rightarrow> pystr \<Rightarrow> real \<Rightarrow> real \<Rightarrow> canvas" where
  "pdf_footer now c text page_w page_h = run c
     [saveState,
      setFillColor (Color 0.7 0.75 0.9 0.55),
      setFont ''Helvetica'' 9,
      drawString (0.7 * inch) (0.45 * inch) text,
      (\<lambda>c. tick (drawRightString (page_w - 0.7 * inch) (0.45 * inch) (strftime_now now c) c)),
      restoreState]"

subsection \<open>\<^verbatim>\<open>build_pdf_report\<close>\<close>

definition page_w :: real where
  "page_w = fst letter"

definition page_h :: real where
  "page_h = snd letter"

definition margin_x :: real where
  "margin_x = 0.7 * inch"

definition new_page :: "canvas \<Rightarrow> canvas" where
  "new_page c = showPage c"

text \<open>The glyph and the space of \<^verbatim>\<open>f"\<bullet> {b}"\<close>: U+2022 and U+0020.\<close>

definition bullet_text :: "pystr \<Rightarrow> pystr" where
  "bullet_text b = [8226, 32] @ b"

definition max_chars :: nat where
  "max_chars = 110"

text \<open>Lines 138: \<^verbatim>\<open>[text[i:i+max_chars] for i in range(0, len(text), max_chars)]\<close>.\<close>

definition wrap_lines :: "pystr \<Rightarrow> pystr list" where
  "wrap_lines text = map (\<lambda>i. slice text i (i + max_chars)) (range_step (length text) max_chars)"

text \<open>Lines 139 to 141: the loop over the wrapped lines, on the canvas and the cursor.\<close>

fun draw_lines :: "canvas \<times> real \<Rightarrow> pystr list \<Rightarrow> canvas \<times> real" where
  "draw_lines (c, y) [] = (c, y)"
| "draw_lines (c, y) (line # lines) =
     draw_lines (drawString margin_x y line c, y - 0.18 * inch) lines"

text \<open>Lines 127 to 141: the body of the loop over the bullets of a section.\<close>

definition bullet_step :: "(nat \<Rightarrow> pystr) \<Rightarrow> pystr \<Rightarrow> canvas \<times> real \<Rightarrow> pystr \<Rightarrow> canvas \<times> real" where
  "bullet_step now watermark_text cy b =
     (let (c, y) = cy;
          (c, y) =
            (if y < 1.1 * inch then
               (let c = pdf_footer now c watermark_text page_w page_h;
                    c = new_page c;
                    y = page_h - 0.9 * inch;
                    c = pdf_watermark c watermark_text page_w page_h;
                    c = setFont ''Helvetica'' 10 c
                in (c, y))
             else (c, y));
          text = bullet_text b;
          lines = wrap_lines text
      in draw_lines (c, y) lines)"

text \<open>Lines 114 to 142: the body of the loop over the sections.\<close>

definition section_step ::
  "(nat \<Rightarrow> pystr) \<Rightarrow> pystr \<Rightarrow> canvas \<times> real \<Rightarrow> pystr \<times> pystr list \<Rightarrow> canvas \<times> real" where
  "section_step now watermark_text cy section =
     (let (c, y) = cy;
          (heading, bullets) = section;
          (c, y) =
            (if y < 1.3 * inch then
               (let c = pdf_footer now c watermark_text page_w page_h;
                    c = new_page c;
                    y = page_h - 0.9 * inch;
                    c = pdf_watermark c watermark_text page_w page_h
                in (c, y))
             else (c, y));
          c = setFont ''Helvetica-Bold'' 12 c;
          c = drawString margin_x y heading c;
          y = y - 0.22 * inch;
          c = setFont ''Helvetica'' 10 c;
          (c, y) = foldl (bullet_step now watermark_text) (c, y) bullets;
          y = y - 0.12 * inch
      in (c, y))"

text \<open>The subtitle of line 109; its two separators are the glyph U+2022.\<close>

definition subtitle :: pystr where
  "subtitle = py ''Pilot Proposal '' @ [8226] @ py '' Six Sigma Black Belt format ''
     @ [8226] @ py '' DMAIC governed''"

definition build_pdf_report ::
  "(nat \<Rightarrow> pystr) \<Rightarrow> pystr \<Rightarrow> (pystr \<times> pystr list) list \<Rightarrow> pystr \<Rightarrow> op list list" where
  "build_pdf_report now title sections watermark_text =
     (let c = Canvas;
          y = page_h - 0.9 * inch;
          c = pdf_watermark c watermark_text page_w page_h;
          c = setFillColor (Color 0.9 0.95 1.0 1) c;
          c = setFont ''Helvetica-Bold'' 18 c;
          c = drawString margin_x y title c;
          y = y - 0.35 * inch;
          c = setFont ''Helvetica'' 10 c;
          c = setFillColor (Color 0.8 0.85 0.95 1) c;
          c = drawString margin_x y subtitle c;
          y = y - 0.30 * inch;
          c = setFillColor (Color 0.95 0.98 1.0 1) c;
          (c, y) = foldl (section_step now watermark_text) (c, y) sections;
          c = pdf_footer now c watermark_text page_w page_h;
          c = save c
      in getvalue c)"

subsection \<open>Vocabulary of the properties\<close>

text \<open>The operators one call of \<^verbatim>\<open>pdf_watermark\<close> and one call of \<^verbatim>\<open>pdf_footer\<close> record.\<close>

definition watermark_ops :: "pystr \<Rightarrow> real \<Rightarrow> real \<Rightarrow> op list" where
  "watermark_ops t w h =
     [SaveState, SetFillColor (Color 0.65 0.75 0.95 0.12), SetFont ''Helvetica-Bold'' 36,
      Translate (w / 2) (h / 2), Rotate 30, DrawCentredString 0 0 t, RestoreState]"

definition footer_ops :: "pystr \<Rightarrow> pystr \<Rightarrow> real \<Rightarrow> real \<Rightarrow> op list" where
  "footer_ops t stamp w h =
     [SaveState, SetFillColor (Color 0.7 0.75 0.9 0.55), SetFont ''Helvetica'' 9,
      DrawString (0.7 * inch) (0.45 * inch) t,
      DrawRightString (w - 0.7 * inch) (0.45 * inch) stamp, RestoreState]"

text \<open>The operators the loop over wrapped lines records, from the cursor \<open>y\<close> down.\<close>

fun line_ops :: "real \<Rightarrow> pystr list \<Rightarrow> op list" where
  "line_ops y [] = []"
| "line_ops y (l # ls) = DrawString margin_x y l # line_ops (y - 0.18 * inch) ls"

text \<open>The strings a page draws with \<^verbatim>\<open>drawString\<close>, in drawing order.\<close>

fun drawn_strings :: "op list \<Rightarrow> pystr list" where
  "drawn_strings [] = []"
| "drawn_strings (DrawString x y t # ops) = t # drawn_strings ops"
| "drawn_strings (x # ops) = drawn_strings ops"

text \<open>
  The watermark is the one centred string a page draws, the footer line carries the one
  right-aligned string (the timestamp): pages are counted by these two operators.
\<close>

fun is_watermark :: "op \<Rightarrow> bool" where
  "is_watermark (DrawCentredString x y t) = True"
| "is_watermark _ = False"

fun is_footer :: "op \<Rightarrow> bool" where
  "is_footer (DrawRightString x y t) = True"
| "is_footer _ = False"

definition watermarks :: "op list \<Rightarrow> nat" where
  "watermarks p = length (filter is_watermark p)"

definition footers :: "op list \<Rightarrow> nat" where
  "footers p = length (filter is_footer p)"

text \<open>The invariant of the canvas while a page is being drawn.\<close>

definition page_open :: "canvas \<Rightarrow> bool" where
  "page_open c =
     (list_all (\<lambda>p. watermarks p = 1 \<and> footers p = 1) (pages c) \<and>
      watermarks (code c) = 1 \<and> footers (code c) = 0)"

text \<open>The document with the timestamp of every footer blanked.\<close>

fun erase_stamp :: "op \<Rightarrow> op" where
  "erase_stamp (DrawRightString x y t) = DrawRightString x y []"
| "erase_stamp x = x"

definition erase_stamps :: "op list list \<Rightarrow> op list list" where
  "erase_stamps doc = map (map erase_stamp) doc"

text \<open>Two states of the report that differ at most in the timestamps drawn so far.\<close>

definition same_drawing :: "canvas \<times> real \<Rightarrow> canvas \<times> real \<Rightarrow> bool" where
  "same_drawing cy1 cy2 =
     (erase_stamps (pages (fst cy1)) = erase_stamps (pages (fst cy2)) \<and>
      map erase_stamp (code (fst cy1)) = map erase_stamp (code (fst cy2)) \<and>
      snd cy1 = snd cy2)"






text \<open>
  The first page of the document while it is drawn, and the operators every report starts
  with: the watermark and the title at the top offset.
\<close>

definition first_page :: "canvas \<Rightarrow> op list" where
  "first_page c = hd (pages c @ [code c])"

definition title_block :: "pystr \<Rightarrow> pystr \<Rightarrow> op list" where
  "title_block title wm =
     watermark_ops wm page_w page_h @
     [SetFillColor (Color 0.9 0.95 1.0 1), SetFont ''Helvetica-Bold'' 18,
      DrawString margin_x (page_h - 0.9 * inch) title]"

text \<open>
  A report with one section of one bullet of 5800 characters (the letter \<open>a\<close>), title
  \<open>T\<close>, heading \<open>H\<close>, watermark text \<open>W\<close>, under a clock that reads the empty string.
\<close>

definition long_bullet :: pystr where
  "long_bullet = replicate 5800 97"

definition long_bullet_report :: "op list list" where
  "long_bullet_report = build_pdf_report (\<lambda>n. []) [84] [([72], [long_bullet])] [87]"





section \<open>Properties\<close>

subsection \<open>Basic facts\<close>

lemmas canvas_calls = emit_def saveState_def restoreState_def setFillColor_def setFont_def
  translate_def rotate_def drawString_def drawCentredString_def drawRightString_def

lemma pdf_watermark_eq:
  "pdf_watermark c t w h = c\<lparr>code := code c @ watermark_ops t w h\<rparr>"
  by (simp add: pdf_watermark_def run_def canvas_calls watermark_ops_def)

lemma pdf_footer_eq:
  "pdf_footer now c t w h =
     c\<lparr>code := code c @ footer_ops t (now (reads c)) w h, reads := Suc (reads c)\<rparr>"
  by (simp add: pdf_footer_def run_def canvas_calls tick_def strftime_now_def footer_ops_def)

lemma draw_lines_eq:
  "draw_lines (c, y) ls =
     (c\<lparr>code := code c @ line_ops y ls\<rparr>, y - real (length ls) * (0.18 * inch))"
  by (induction ls arbitrary: c y) (simp_all add: drawString_def emit_def algebra_simps)

lemma bullet_step_eq:
  "bullet_step now wm (c, y) b =
     draw_lines
       (if y < 1.1 * inch
        then (c\<lparr>reads := Suc (reads c),
                pages := pages c @ [code c @ footer_ops wm (now (reads c)) page_w page_h],
                code := watermark_ops wm page_w page_h @ [SetFont ''Helvetica'' 10]\<rparr>,
              page_h - 0.9 * inch)
        else (c, y))
       (wrap_lines (bullet_text b))"
  by (simp add: bullet_step_def Let_def pdf_footer_eq pdf_watermark_eq new_page_def
      showPage_def setFont_def emit_def)

lemma drawn_strings_append: "drawn_strings (xs @ ys) = drawn_strings xs @ drawn_strings ys"
  by (induction xs rule: drawn_strings.induct) simp_all

lemma drawn_strings_line_ops: "drawn_strings (line_ops y ls) = ls"
  by (induction ls arbitrary: y) simp_all

lemma drawn_strings_watermark_ops: "drawn_strings (watermark_ops t w h) = []"
  by (simp add: watermark_ops_def)

subsection \<open>Wrapping\<close>

lemma concat_chunks: "concat (map (\<lambda>k. take n (drop (k * n) xs)) [0 ..< m]) = take (m * n) xs"
proof (induction m)
  case 0
  show ?case by simp
next
  case (Suc m)
  have "take (Suc m * n) xs = take (m * n) xs @ take n (drop (m * n) xs)"
    using take_add [of "m * n" n xs] by (simp add: add.commute)
  with Suc show ?case by simp
qed

lemma ceil_div_covers:
  fixes n k :: nat
  assumes "0 < k"
  shows "n \<le> ((n + k - 1) div k) * k"
proof -
  have "(n + k - 1) div k * k + (n + k - 1) mod k = n + k - 1"
    by (rule div_mult_mod_eq)
  moreover have "(n + k - 1) mod k < k"
    using assms by simp
  ultimately show ?thesis
    by linarith
qed

lemma concat_wrap_lines: "concat (wrap_lines t) = t"
proof -
  have "length t \<le> ((length t + max_chars - 1) div max_chars) * max_chars"
    by (rule ceil_div_covers) (simp add: max_chars_def)
  then show ?thesis
    by (simp add: wrap_lines_def slice_def range_step_def comp_def concat_chunks)
qed

lemma length_wrap_lines:
  "map length (wrap_lines t) =
     map (\<lambda>k. min max_chars (length t - k * max_chars))
       [0 ..< (length t + max_chars - 1) div max_chars]"
  by (simp add: wrap_lines_def slice_def range_step_def comp_def min.commute)

lemma wrap_lines_nonempty: "wrap_lines (bullet_text b) \<noteq> []"
  by (simp add: wrap_lines_def bullet_text_def range_step_def max_chars_def)

text \<open>A text of 1002 characters wraps into nine full lines and one of 12 characters.\<close>

lemma wrap_lengths_1002:
  "length t = 1002 \<Longrightarrow>
   map length (wrap_lines t) = [110, 110, 110, 110, 110, 110, 110, 110, 110, 12]"
  by (simp add: length_wrap_lines max_chars_def upt_rec)

text \<open>
  Claim C3, as stated: a bullet of 1000 characters wraps into 9 lines of 110 characters and
  one of 10. The text that is wrapped is the bullet with the glyph and a space in front,
  1002 characters: for the bullet of 1000 letters \<open>a\<close> no wrapped line has 10 characters.
\<close>

theorem long_bullet_no_line_of_10:
  "length (replicate 1000 (97::nat)) = 1000 \<and>
   10 \<notin> set (map length (wrap_lines (bullet_text (replicate 1000 97))))"
  using wrap_lengths_1002 [of "bullet_text (replicate 1000 97)"]
  by (simp add: bullet_text_def)

text \<open>
  Claim C3, amended: a bullet of exactly 1000 characters wraps into exactly 10 lines, 9 of
  110 characters followed by one of 12 characters.
\<close>

theorem long_bullet_wraps_9_of_110_and_12:
  "length b = 1000 \<Longrightarrow>
   map length (wrap_lines (bullet_text b)) = [110, 110, 110, 110, 110, 110, 110, 110, 110, 12]"
  by (rule wrap_lengths_1002) (simp add: bullet_text_def)

theorem long_bullet_wraps_witness:
  "length (replicate 1000 (97::nat)) = 1000 \<and>
   map length (wrap_lines (bullet_text (replicate 1000 97))) =
     [110, 110, 110, 110, 110, 110, 110, 110, 110, 12]"
  using long_bullet_wraps_9_of_110_and_12 [of "replicate 1000 97"] by simp

text \<open>
  Claim C4: the wrapped lines of a bullet are all drawn, in order, on the page being drawn
  when its lines start (a new page when the cursor was below the bullet threshold), and
  their concatenation is the glyph, the space and the bullet: without the two characters
  of the prefix it is the bullet itself, whatever its length.
\<close>

theorem wrapped_lines_rebuild_bullet:
  "drawn_strings (code (fst (bullet_step now wm (c, y) b))) =
     (if y < 1.1 * inch then [] else drawn_strings (code c)) @ wrap_lines (bullet_text b) \<and>
   take 2 (concat (wrap_lines (bullet_text b))) = [8226, 32] \<and>
   drop 2 (concat (wrap_lines (bullet_text b))) = b"
  by (simp add: bullet_step_eq draw_lines_eq drawn_strings_append drawn_strings_line_ops
      drawn_strings_watermark_ops concat_wrap_lines bullet_text_def)

subsection \<open>The document without sections\<close>

text \<open>
  Claim C7: with no sections the document is one page, and the page holds the watermark,
  the title at the top offset, the subtitle 0.35 inch below it and the footer, and nothing
  else. It holds for every title and watermark text, the non-empty ones included.
\<close>

theorem empty_sections_one_page:
  "build_pdf_report now title [] watermark_text =
     [watermark_ops watermark_text page_w page_h @
      [SetFillColor (Color 0.9 0.95 1.0 1),
       SetFont ''Helvetica-Bold'' 18,
       DrawString margin_x (page_h - 0.9 * inch) title,
       SetFont ''Helvetica'' 10,
       SetFillColor (Color 0.8 0.85 0.95 1),
       DrawString margin_x (page_h - 0.9 * inch - 0.35 * inch) subtitle,
       SetFillColor (Color 0.95 0.98 1.0 1)] @
      footer_ops watermark_text (now 0) page_w page_h]"
  by (simp add: build_pdf_report_def Canvas_def pdf_watermark_eq pdf_footer_eq canvas_calls
      showPage_def save_def getvalue_def)

subsection \<open>Watermark and footer on every page\<close>

lemma section_step_eq:
  "section_step now wm (c, y) (h, bs) =
     (let (c1, y1) =
        (if y < 1.3 * inch
         then (c\<lparr>reads := Suc (reads c),
                 pages := pages c @ [code c @ footer_ops wm (now (reads c)) page_w page_h],
                 code := watermark_ops wm page_w page_h\<rparr>,
               page_h - 0.9 * inch)
         else (c, y));
          r = foldl (bullet_step now wm)
               (c1\<lparr>code := code c1 @
                  [SetFont ''Helvetica-Bold'' 12, DrawString margin_x y1 h,
                   SetFont ''Helvetica'' 10]\<rparr>,
                y1 - 0.22 * inch) bs
      in (fst r, snd r - 0.12 * inch))"
  by (simp add: section_step_def Let_def pdf_footer_eq pdf_watermark_eq new_page_def
      showPage_def setFont_def drawString_def emit_def split_def)

lemma counts_append:
  "watermarks (xs @ ys) = watermarks xs + watermarks ys"
  "footers (xs @ ys) = footers xs + footers ys"
  by (simp_all add: watermarks_def footers_def)

lemma counts_watermark_ops:
  "watermarks (watermark_ops t w h) = 1" "footers (watermark_ops t w h) = 0"
  by (simp_all add: watermarks_def footers_def watermark_ops_def)

lemma counts_footer_ops:
  "watermarks (footer_ops t s w h) = 0" "footers (footer_ops t s w h) = 1"
  by (simp_all add: watermarks_def footers_def footer_ops_def)

lemma counts_line_ops:
  "watermarks (line_ops y ls) = 0" "footers (line_ops y ls) = 0"
  by (induction ls arbitrary: y) (simp_all add: watermarks_def footers_def)

lemma counts_Cons:
  "watermarks (x # xs) = (if is_watermark x then 1 else 0) + watermarks xs"
  "footers (x # xs) = (if is_footer x then 1 else 0) + footers xs"
  "watermarks [] = 0" "footers [] = 0"
  by (simp_all add: watermarks_def footers_def)

lemmas counts = counts_append counts_watermark_ops counts_footer_ops counts_line_ops counts_Cons

lemma bullet_step_open:
  "page_open c \<Longrightarrow> page_open (fst (bullet_step now wm (c, y) b))"
  by (simp add: bullet_step_eq draw_lines_eq page_open_def counts)

lemma foldl_bullet_step_open:
  "page_open (fst cy) \<Longrightarrow> page_open (fst (foldl (bullet_step now wm) cy bs))"
proof (induction bs arbitrary: cy)
  case Nil
  then show ?case by simp
next
  case (Cons b bs)
  obtain c y where cy: "cy = (c, y)" by (cases cy)
  with Cons.prems have "page_open (fst (bullet_step now wm cy b))"
    by (simp add: bullet_step_open)
  then show ?case
    using Cons.IH by simp
qed

lemma section_step_open:
  "page_open c \<Longrightarrow> page_open (fst (section_step now wm (c, y) s))"
proof -
  assume c: "page_open c"
  obtain h bs where s: "s = (h, bs)" by (cases s)
  show ?thesis
    unfolding s section_step_eq Let_def split_def fst_conv
    by (rule foldl_bullet_step_open) (use c in \<open>simp add: page_open_def counts\<close>)
qed

lemma foldl_section_step_open:
  "page_open (fst cy) \<Longrightarrow> page_open (fst (foldl (section_step now wm) cy ss))"
proof (induction ss arbitrary: cy)
  case Nil
  then show ?case by simp
next
  case (Cons s ss)
  obtain c y where cy: "cy = (c, y)" by (cases cy)
  with Cons.prems have "page_open (fst (section_step now wm cy s))"
    by (simp add: section_step_open)
  then show ?case
    using Cons.IH by simp
qed

lemma build_pdf_report_eq:
  "build_pdf_report now title ss wm =
     (let c = fst (foldl (section_step now wm)
                (Canvas\<lparr>code := watermark_ops wm page_w page_h @
                   [SetFillColor (Color 0.9 0.95 1.0 1), SetFont ''Helvetica-Bold'' 18,
                    DrawString margin_x (page_h - 0.9 * inch) title, SetFont ''Helvetica'' 10,
                    SetFillColor (Color 0.8 0.85 0.95 1),
                    DrawString margin_x (page_h - 0.9 * inch - 0.35 * inch) subtitle,
                    SetFillColor (Color 0.95 0.98 1.0 1)]\<rparr>,
                 page_h - 0.9 * inch - 0.35 * inch - 0.30 * inch) ss)
      in pages c @ [code c @ footer_ops wm (now (reads c)) page_w page_h])"
  by (simp add: build_pdf_report_def Let_def split_def Canvas_def pdf_watermark_eq pdf_footer_eq
      canvas_calls showPage_def save_def getvalue_def footer_ops_def)

lemma length_wrap_lines_div: "length (wrap_lines t) = (length t + max_chars - 1) div max_chars"
  using arg_cong [OF length_wrap_lines [of t], of length] by simp

lemma two_pages:
  "length (build_pdf_report (\<lambda>n. []) [84] [([72], [replicate 5800 97, []])] [87]) = 2"
  by (simp add: build_pdf_report_eq section_step_eq bullet_step_eq draw_lines_eq Let_def
      Canvas_def length_wrap_lines_div bullet_text_def max_chars_def inch_def page_h_def letter_def)

text \<open>
  Claim C5: the document has at least one page, and every page of it carries exactly one
  watermark and exactly one footer line, whatever the sections are; pages started in the
  middle of a section are pages of the document like the others.
\<close>

theorem every_page_one_watermark_one_footer:
  "build_pdf_report now title ss wm \<noteq> [] \<and>
   (\<forall>p \<in> set (build_pdf_report now title ss wm). watermarks p = 1 \<and> footers p = 1)"
proof -
  let ?start = "(Canvas\<lparr>code := watermark_ops wm page_w page_h @
                   [SetFillColor (Color 0.9 0.95 1.0 1), SetFont ''Helvetica-Bold'' 18,
                    DrawString margin_x (page_h - 0.9 * inch) title, SetFont ''Helvetica'' 10,
                    SetFillColor (Color 0.8 0.85 0.95 1),
                    DrawString margin_x (page_h - 0.9 * inch - 0.35 * inch) subtitle,
                    SetFillColor (Color 0.95 0.98 1.0 1)]\<rparr>,
                 page_h - 0.9 * inch - 0.35 * inch - 0.30 * inch)"
  have "page_open (fst ?start)"
    by (simp add: page_open_def Canvas_def counts)
  then have "page_open (fst (foldl (section_step now wm) ?start ss))"
    by (rule foldl_section_step_open)
  then show ?thesis
    by (simp add: build_pdf_report_eq Let_def page_open_def counts list_all_iff)
qed


text \<open>
  A document of two pages, the second started in the middle of the only section: its first
  bullet has 5800 characters and runs below the bullet threshold.
\<close>

theorem every_page_witness:
  "length (build_pdf_report (\<lambda>n. []) [84] [([72], [replicate 5800 97, []])] [87]) = 2 \<and>
   watermarks (build_pdf_report (\<lambda>n. []) [84] [([72], [replicate 5800 97, []])] [87] ! 1) = 1 \<and>
   footers (build_pdf_report (\<lambda>n. []) [84] [([72], [replicate 5800 97, []])] [87] ! 1) = 1"
proof -
  let ?doc = "build_pdf_report (\<lambda>n. []) [84] [([72], [replicate 5800 97, []])] [87]"
  have len: "length ?doc = 2"
    by (rule two_pages)
  then have "?doc ! 1 \<in> set ?doc"
    by simp
  with every_page_one_watermark_one_footer [of "\<lambda>n. []" "[84]" "[([72], [replicate 5800 97, []])]" "[87]"]
  show ?thesis
    using len by blast
qed

subsection \<open>The clock\<close>

lemma erase_footer_ops: "map erase_stamp (footer_ops t s w h) = footer_ops t [] w h"
  by (simp add: footer_ops_def)

lemma bullet_step_same:
  assumes "same_drawing cy1 cy2"
  shows "same_drawing (bullet_step now1 wm cy1 b) (bullet_step now2 wm cy2 b)"
proof -
  obtain c1 y1 c2 y2 where cy: "cy1 = (c1, y1)" "cy2 = (c2, y2)"
    by (cases cy1, cases cy2)
  with assms show ?thesis
    by (simp add: same_drawing_def erase_stamps_def bullet_step_eq draw_lines_eq
        erase_footer_ops)
qed

lemma foldl_bullet_step_same:
  "same_drawing cy1 cy2 \<Longrightarrow>
   same_drawing (foldl (bullet_step now1 wm) cy1 bs) (foldl (bullet_step now2 wm) cy2 bs)"
  by (induction bs arbitrary: cy1 cy2) (simp_all add: bullet_step_same)

lemma section_step_same:
  assumes "same_drawing cy1 cy2"
  shows "same_drawing (section_step now1 wm cy1 s) (section_step now2 wm cy2 s)"
proof -
  obtain c1 y1 c2 y2 h bs where cy: "cy1 = (c1, y1)" "cy2 = (c2, y2)" "s = (h, bs)"
    by (cases cy1, cases cy2, cases s)
  let ?in1 = "\<lambda>now c y. (if y < 1.3 * inch
         then (c\<lparr>reads := Suc (reads c),
                 pages := pages c @ [code c @ footer_ops wm (now (reads c)) page_w page_h],
                 code := watermark_ops wm page_w page_h\<rparr>,
               page_h - 0.9 * inch)
         else (c, y))"
  let ?in2 = "\<lambda>now c y. ((fst (?in1 now c y))\<lparr>code := code (fst (?in1 now c y)) @
                  [SetFont ''Helvetica-Bold'' 12, DrawString margin_x (snd (?in1 now c y)) h,
                   SetFont ''Helvetica'' 10]\<rparr>,
                snd (?in1 now c y) - 0.22 * inch)"
  have "same_drawing (?in2 now1 c1 y1) (?in2 now2 c2 y2)"
    using assms cy by (simp add: same_drawing_def erase_stamps_def erase_footer_ops)
  then have "same_drawing (foldl (bullet_step now1 wm) (?in2 now1 c1 y1) bs)
     (foldl (bullet_step now2 wm) (?in2 now2 c2 y2) bs)"
    by (rule foldl_bullet_step_same)
  then show ?thesis
    unfolding cy section_step_eq Let_def split_def
    by (simp add: same_drawing_def)
qed

lemma foldl_section_step_same:
  "same_drawing cy1 cy2 \<Longrightarrow>
   same_drawing (foldl (section_step now1 wm) cy1 ss) (foldl (section_step now2 wm) cy2 ss)"
  by (induction ss arbitrary: cy1 cy2) (simp_all add: section_step_same)

text \<open>
  Claim C6 speaks of the bytes of the PDF file. They are written by ReportLab when the
  canvas is saved, from the operators recorded here and from data of its own; that code is
  not part of the source, and the bytes are not modelled. What the source decides is the
  sequence of operators: the clock readings reach it only as the right-aligned timestamp
  of the footers, so under any two clocks the two sequences are equal once the timestamps
  are blanked, and page breaks and positions do not depend on the clock.
\<close>

lemma operators_depend_on_clock_only_in_footer_stamp:
  "erase_stamps (build_pdf_report now1 title ss wm) =
   erase_stamps (build_pdf_report now2 title ss wm)"
proof -
  let ?start = "(Canvas\<lparr>code := watermark_ops wm page_w page_h @
                   [SetFillColor (Color 0.9 0.95 1.0 1), SetFont ''Helvetica-Bold'' 18,
                    DrawString margin_x (page_h - 0.9 * inch) title, SetFont ''Helvetica'' 10,
                    SetFillColor (Color 0.8 0.85 0.95 1),
                    DrawString margin_x (page_h - 0.9 * inch - 0.35 * inch) subtitle,
                    SetFillColor (Color 0.95 0.98 1.0 1)]\<rparr>,
                 page_h - 0.9 * inch - 0.35 * inch - 0.30 * inch)"
  have "same_drawing ?start ?start"
    by (simp add: same_drawing_def)
  then have "same_drawing (foldl (section_step now1 wm) ?start ss)
     (foldl (section_step now2 wm) ?start ss)"
    by (rule foldl_section_step_same)
  then show ?thesis
    by (simp add: build_pdf_report_eq Let_def same_drawing_def erase_stamps_def erase_footer_ops)
qed

subsection \<open>Totality and work\<close>

lemma length_line_ops: "length (line_ops y ls) = length ls"
  by (induction ls arbitrary: y) simp_all




















subsection \<open>The title block, the offsets and the thresholds\<close>

lemma bullet_step_first_page:
  "prefix (first_page c) (first_page (fst (bullet_step now wm (c, y) b)))"
  by (cases "pages c") (simp_all add: bullet_step_eq draw_lines_eq first_page_def)

lemma foldl_bullet_step_first_page:
  "prefix (first_page (fst cy)) (first_page (fst (foldl (bullet_step now wm) cy bs)))"
proof (induction bs arbitrary: cy)
  case Nil
  show ?case by simp
next
  case (Cons b bs)
  obtain c y where cy: "cy = (c, y)" by (cases cy)
  have "prefix (first_page (fst cy)) (first_page (fst (bullet_step now wm cy b)))"
    unfolding cy by (simp add: bullet_step_first_page)
  also have "prefix \<dots> (first_page (fst (foldl (bullet_step now wm) (bullet_step now wm cy b) bs)))"
    by (rule Cons.IH)
  finally show ?case by simp
qed

lemma section_step_first_page:
  "prefix (first_page c) (first_page (fst (section_step now wm (c, y) s)))"
proof -
  obtain h bs where s: "s = (h, bs)" by (cases s)
  let ?in1 = "(if y < 1.3 * inch
         then (c\<lparr>reads := Suc (reads c),
                 pages := pages c @ [code c @ footer_ops wm (now (reads c)) page_w page_h],
                 code := watermark_ops wm page_w page_h\<rparr>,
               page_h - 0.9 * inch)
         else (c, y))"
  let ?in2 = "((fst ?in1)\<lparr>code := code (fst ?in1) @
                  [SetFont ''Helvetica-Bold'' 12, DrawString margin_x (snd ?in1) h,
                   SetFont ''Helvetica'' 10]\<rparr>,
                snd ?in1 - 0.22 * inch)"
  have "prefix (first_page c) (first_page (fst ?in2))"
    by (cases "pages c") (simp_all add: first_page_def)
  also have "prefix \<dots> (first_page (fst (foldl (bullet_step now wm) ?in2 bs)))"
    by (rule foldl_bullet_step_first_page)
  finally show ?thesis
    unfolding s section_step_eq Let_def split_def by simp
qed

lemma foldl_section_step_first_page:
  "prefix (first_page (fst cy)) (first_page (fst (foldl (section_step now wm) cy ss)))"
proof (induction ss arbitrary: cy)
  case Nil
  show ?case by simp
next
  case (Cons s ss)
  obtain c y where cy: "cy = (c, y)" by (cases cy)
  have "prefix (first_page (fst cy)) (first_page (fst (section_step now wm cy s)))"
    unfolding cy by (simp add: section_step_first_page)
  also have "prefix \<dots> (first_page (fst (foldl (section_step now wm) (section_step now wm cy s) ss)))"
    by (rule Cons.IH)
  finally show ?case by simp
qed

lemma first_page_starts_with_title_block:
  "prefix (title_block title wm) (hd (build_pdf_report now title ss wm))"
proof -
  let ?start = "(Canvas\<lparr>code := watermark_ops wm page_w page_h @
                   [SetFillColor (Color 0.9 0.95 1.0 1), SetFont ''Helvetica-Bold'' 18,
                    DrawString margin_x (page_h - 0.9 * inch) title, SetFont ''Helvetica'' 10,
                    SetFillColor (Color 0.8 0.85 0.95 1),
                    DrawString margin_x (page_h - 0.9 * inch - 0.35 * inch) subtitle,
                    SetFillColor (Color 0.95 0.98 1.0 1)]\<rparr>,
                 page_h - 0.9 * inch - 0.35 * inch - 0.30 * inch)"
  let ?c = "fst (foldl (section_step now wm) ?start ss)"
  have "prefix (title_block title wm) (first_page (fst ?start))"
    by (simp add: first_page_def Canvas_def title_block_def)
  also have "prefix \<dots> (first_page ?c)"
    by (rule foldl_section_step_first_page)
  also have "prefix \<dots> (hd (build_pdf_report now title ss wm))"
    by (cases "pages ?c") (simp_all add: build_pdf_report_eq Let_def first_page_def)
  finally show ?thesis .
qed

text \<open>
  Claim C10: the source has no validation and no rejecting path, so the result type of
  \<open>build_pdf_report\<close> has no error value: for every title, watermark text and list of
  sections a document of at least one page is returned, and its first page starts with the
  watermark and the title as given. For the empty title and the empty watermark text the
  two strings are drawn empty.
\<close>

theorem no_input_is_rejected:
  "build_pdf_report now title ss wm \<noteq> [] \<and>
   prefix (title_block title wm) (hd (build_pdf_report now title ss wm)) \<and>
   build_pdf_report now [] ss [] \<noteq> [] \<and>
   prefix (title_block [] []) (hd (build_pdf_report now [] ss []))"
  by (simp add: first_page_starts_with_title_block) (simp add: build_pdf_report_eq Let_def)


subsection \<open>A bullet longer than the page\<close>

lemma line_ops_nth:
  "i < length ls \<Longrightarrow>
   line_ops y ls ! i = DrawString margin_x (y - real i * (0.18 * inch)) (ls ! i)"
proof (induction ls arbitrary: y i)
  case Nil
  then show ?case by simp
next
  case (Cons l ls)
  then show ?case
    by (cases i) (simp_all add: algebra_simps)
qed

lemma wrap_lines_nth:
  "i < (length t + max_chars - 1) div max_chars \<Longrightarrow>
   wrap_lines t ! i = slice t (i * max_chars) (i * max_chars + max_chars)"
  by (simp add: wrap_lines_def range_step_def)

lemma long_bullet_report_eq:
  "long_bullet_report =
     [(title_block [84] [87] @
       [SetFont ''Helvetica'' 10, SetFillColor (Color 0.8 0.85 0.95 1),
        DrawString margin_x (page_h - 0.9 * inch - 0.35 * inch) subtitle,
        SetFillColor (Color 0.95 0.98 1.0 1),
        SetFont ''Helvetica-Bold'' 12,
        DrawString margin_x (page_h - 0.9 * inch - 0.35 * inch - 0.30 * inch) [72],
        SetFont ''Helvetica'' 10]) @
      line_ops (page_h - 0.9 * inch - 0.35 * inch - 0.30 * inch - 0.22 * inch)
        (wrap_lines (bullet_text long_bullet)) @
      footer_ops [87] [] page_w page_h]"
  by (simp add: long_bullet_report_def build_pdf_report_eq section_step_eq bullet_step_eq
      draw_lines_eq Let_def Canvas_def title_block_def inch_def page_h_def letter_def)

lemma long_bullet_lines: "length (wrap_lines (bullet_text long_bullet)) = 53"
  by (simp add: length_wrap_lines_div bullet_text_def long_bullet_def max_chars_def)

lemma long_bullet_line_at:
  assumes "i < 53"
  shows "hd long_bullet_report ! (17 + i) =
     DrawString margin_x
       (page_h - 0.9 * inch - 0.35 * inch - 0.30 * inch - 0.22 * inch - real i * (0.18 * inch))
       (wrap_lines (bullet_text long_bullet) ! i)"
proof -
  let ?pre = "title_block [84] [87] @
       [SetFont ''Helvetica'' 10, SetFillColor (Color 0.8 0.85 0.95 1),
        DrawString margin_x (page_h - 0.9 * inch - 0.35 * inch) subtitle,
        SetFillColor (Color 0.95 0.98 1.0 1),
        SetFont ''Helvetica-Bold'' 12,
        DrawString margin_x (page_h - 0.9 * inch - 0.35 * inch - 0.30 * inch) [72],
        SetFont ''Helvetica'' 10]"
  let ?ls = "wrap_lines (bullet_text long_bullet)"
  let ?y = "page_h - 0.9 * inch - 0.35 * inch - 0.30 * inch - 0.22 * inch"
  have pre: "length ?pre = 17"
    by (simp add: title_block_def watermark_ops_def)
  have i: "i < length (line_ops ?y ?ls)"
    using assms by (simp add: length_line_ops long_bullet_lines)
  have "hd long_bullet_report = ?pre @ (line_ops ?y ?ls @ footer_ops [87] [] page_w page_h)"
    by (simp add: long_bullet_report_eq)
  then have "hd long_bullet_report ! (17 + i) = (line_ops ?y ?ls @ footer_ops [87] [] page_w page_h) ! i"
    using pre by (metis nth_append_length_plus)
  also have "\<dots> = line_ops ?y ?ls ! i"
    using i by (simp add: nth_append)
  also have "\<dots> = DrawString margin_x (?y - real i * (0.18 * inch)) (?ls ! i)"
    using assms by (simp add: line_ops_nth long_bullet_lines)
  finally show ?thesis .
qed

text \<open>
  Claim C1 says that the page-break test is made before every wrapped line. The source
  makes it once per bullet (line 127), before the lines are computed, and the loop over the
  lines (lines 139 to 141) draws and moves the cursor without a test. On the report with
  the long bullet all 53 wrapped lines are on the one page of the document, and the 47th
  of them (operator 63 of the page) is drawn 0.95 inch above the bottom edge, below the
  bullet threshold of 1.1 inch, with no page break before it.
\<close>

theorem continuation_line_drawn_below_threshold_without_break:
  "length long_bullet_report = 1 \<and>
   length (wrap_lines (bullet_text long_bullet)) = 53 \<and>
   hd long_bullet_report ! 63 =
     DrawString margin_x
       (page_h - 0.9 * inch - 0.35 * inch - 0.30 * inch - 0.22 * inch - 46 * (0.18 * inch))
       (replicate 110 97) \<and>
   page_h - 0.9 * inch - 0.35 * inch - 0.30 * inch - 0.22 * inch - 46 * (0.18 * inch)
     < 1.1 * inch"
proof -
  have "wrap_lines (bullet_text long_bullet) ! 46 = replicate 110 97"
    by (simp add: wrap_lines_nth bullet_text_def long_bullet_def max_chars_def slice_def)
  moreover have "hd long_bullet_report ! (17 + 46) =
     DrawString margin_x
       (page_h - 0.9 * inch - 0.35 * inch - 0.30 * inch - 0.22 * inch - real 46 * (0.18 * inch))
       (wrap_lines (bullet_text long_bullet) ! 46)"
    by (rule long_bullet_line_at) simp
  ultimately show ?thesis
    by (simp add: long_bullet_lines) (simp add: long_bullet_report_eq inch_def page_h_def letter_def)
qed

text \<open>
  Claim C2 says that no line is drawn below the bottom threshold of its kind. On the same
  report the last wrapped line of the bullet (operator 69 of the page) is drawn at a
  negative height, below the bottom edge of the page.
\<close>

theorem line_drawn_below_the_page:
  "hd long_bullet_report ! 69 =
     DrawString margin_x
       (page_h - 0.9 * inch - 0.35 * inch - 0.30 * inch - 0.22 * inch - 52 * (0.18 * inch))
       (replicate 82 97) \<and>
   page_h - 0.9 * inch - 0.35 * inch - 0.30 * inch - 0.22 * inch - 52 * (0.18 * inch) < 0 \<and>
   0 < 1.1 * inch"
proof -
  have "wrap_lines (bullet_text long_bullet) ! 52 = replicate 82 97"
    by (simp add: wrap_lines_nth bullet_text_def long_bullet_def max_chars_def slice_def)
  moreover have "hd long_bullet_report ! (17 + 52) =
     DrawString margin_x
       (page_h - 0.9 * inch - 0.35 * inch - 0.30 * inch - 0.22 * inch - real 52 * (0.18 * inch))
       (wrap_lines (bullet_text long_bullet) ! 52)"
    by (rule long_bullet_line_at) simp
  ultimately show ?thesis
    by (simp add: inch_def page_h_def letter_def)
qed

end
